theory Spec2Isabelle
  imports Complex_Main "HOL-Library.AList" "HOL-Library.Word"
begin

section \<open>Pick and place sequencing: poses\<close>

text \<open>
  The script \<^verbatim>\<open>scripts/pick_and_place.py\<close> drives one limb through pick and place
  cycles. A pose is a \<^verbatim>\<open>geometry_msgs\<close> message: a point and a quaternion. Python
  floats are modelled as real numbers, so rounding is not part of this model.
\<close>

datatype point = Point (px: real) (py: real) (pz: real)

datatype quaternion = Quaternion (qx: real) (qy: real) (qz: real) (qw: real)

datatype pose = Pose (position: point) (orientation: quaternion)

text \<open>
  \<^verbatim>\<open>_approach\<close> and \<^verbatim>\<open>goTo\<close> both start with
  \<^verbatim>\<open>approach = copy.deepcopy(pose); approach.position.z = approach.position.z + self._hover_distance\<close>.
  On values that is the pose below.
\<close>

definition hover :: "real \<Rightarrow> pose \<Rightarrow> pose" where
  "hover d p =
     Pose (Point (px (position p)) (py (position p)) (pz (position p) + d)) (orientation p)"

subsection \<open>The same two lines on a store of objects\<close>

text \<open>
  A pose object refers to its point and its quaternion, and several poses of \<^verbatim>\<open>main\<close>
  share one quaternion object. Whether the caller's pose survives the assignment to
  \<^verbatim>\<open>approach.position.z\<close> depends on what \<^verbatim>\<open>copy.deepcopy\<close> copies, so the two
  lines are modelled once more on a store: a list of objects, an address being an index,
  allocation appending at the end. A lookup that Python would answer with an exception
  (no such object, or an object of another class) is \<open>None\<close>.
\<close>

datatype obj =
    PointObj real real real
  | QuaternionObj real real real real
  | PoseObj nat nat

type_synonym store = "obj list"

definition deref :: "store \<Rightarrow> nat \<Rightarrow> obj option" where
  "deref h a = (if a < length h then Some (h ! a) else None)"

definition alloc :: "store \<Rightarrow> obj \<Rightarrow> nat \<times> store" where
  "alloc h v = (length h, h @ [v])"

definition read_point :: "store \<Rightarrow> nat \<Rightarrow> point option" where
  "read_point h a =
     (case deref h a of Some (PointObj x y z) \<Rightarrow> Some (Point x y z) | _ \<Rightarrow> None)"

definition read_quaternion :: "store \<Rightarrow> nat \<Rightarrow> quaternion option" where
  "read_quaternion h a =
     (case deref h a of Some (QuaternionObj x y z w) \<Rightarrow> Some (Quaternion x y z w) | _ \<Rightarrow> None)"

definition read_pose :: "store \<Rightarrow> nat \<Rightarrow> pose option" where
  "read_pose h a =
     (case deref h a of
        Some (PoseObj pa qa) \<Rightarrow>
          (case read_point h pa of
             None \<Rightarrow> None
           | Some pt \<Rightarrow>
               (case read_quaternion h qa of None \<Rightarrow> None | Some q \<Rightarrow> Some (Pose pt q)))
      | _ \<Rightarrow> None)"

text \<open>\<^verbatim>\<open>copy.deepcopy(pose)\<close>: a new point, a new quaternion and a new pose object.\<close>

definition deepcopy :: "store \<Rightarrow> nat \<Rightarrow> (nat \<times> store) option" where
  "deepcopy h a =
     (case read_pose h a of
        None \<Rightarrow> None
      | Some p \<Rightarrow>
          (let (pa, h1) = alloc h (PointObj (px (position p)) (py (position p)) (pz (position p)));
               (qa, h2) = alloc h1 (QuaternionObj (qx (orientation p)) (qy (orientation p))
                                      (qz (orientation p)) (qw (orientation p)))
           in Some (alloc h2 (PoseObj pa qa))))"

text \<open>\<^verbatim>\<open>approach.position.z = approach.position.z + d\<close>: an update of the point object.\<close>

definition add_position_z :: "store \<Rightarrow> nat \<Rightarrow> real \<Rightarrow> store option" where
  "add_position_z h a d =
     (case deref h a of
        Some (PoseObj pa qa) \<Rightarrow>
          (case deref h pa of
             Some (PointObj x y z) \<Rightarrow> Some (h[pa := PointObj x y (z + d)])
           | _ \<Rightarrow> None)
      | _ \<Rightarrow> None)"

definition hover_store :: "store \<Rightarrow> nat \<Rightarrow> real \<Rightarrow> (nat \<times> store) option" where
  "hover_store h a d =
     (case deepcopy h a of
        None \<Rightarrow> None
      | Some (a', h') \<Rightarrow>
          (case add_position_z h' a' d of None \<Rightarrow> None | Some h'' \<Rightarrow> Some (a', h'')))"

section \<open>The collaborators and the trace of calls\<close>

text \<open>
  The script talks to an inverse-kinematics service, to the limb and to the gripper, and it
  logs through \<^verbatim>\<open>rospy.logerr\<close>. None of them is part of the script, so a run is
  modelled by the trace of the calls it makes, in order, and the two calls that return
  something (the service and \<^verbatim>\<open>endpoint_pose\<close>) are answered by the world, which may
  answer differently as the run goes on: its answer depends on the trace so far.
  Printing to standard output is left out of the trace, and so is the time stamp of the
  request header.
\<close>

type_synonym joint_angles = "(string \<times> real) list"

datatype event =
    GripperOpen
  | GripperClose
  | Sleep real
  | IkService pose
  | MoveToJointPositions joint_angles
  | EndpointPose
  | LogErr string

type_synonym trace = "event list"

datatype joint_state = JointState (name: "string list") (angle: "real list")

text \<open>
  What \<^verbatim>\<open>self._iksvc(ikreq)\<close> does: it raises one of the two exceptions that
  \<^verbatim>\<open>ik_request\<close> catches (with the text of the exception), or it returns a response
  with its \<^verbatim>\<open>result_type\<close> bytes and its \<^verbatim>\<open>joints\<close>.
\<close>

datatype ik_reply =
    RaiseServiceException string
  | RaiseROSException string
  | Response (result_type: "8 word list") (joints: "joint_state list")

record world =
  iksvc :: "trace \<Rightarrow> pose \<Rightarrow> ik_reply"
  endpoint_pose :: "trace \<Rightarrow> pose"

text \<open>
  Modelled from the spec: \<^verbatim>\<open>RESULT_INVALID\<close> is a constant of the service's message
  package, which is not part of the source; the spec gives the invalid result code as zero.
\<close>

definition RESULT_INVALID :: "8 word" where
  "RESULT_INVALID = 0"

datatype exn =
    IndexError
  | TypeError
  | ZeroDivisionError
  | AttributeError string

text \<open>
  The values that reach \<^verbatim>\<open>_guarded_move_to_joint_position\<close>: \<^verbatim>\<open>None\<close> (the default of
  \<^verbatim>\<open>start_angles\<close>), \<^verbatim>\<open>False\<close> (from \<^verbatim>\<open>ik_request\<close>) or a dictionary from joint
  names to angles. A dictionary keeps its keys in insertion order, a repeated key
  overwriting the value in place.
\<close>

datatype pyval = PyNone | PyFalse | PyDict joint_angles

fun truthy :: "pyval \<Rightarrow> bool" where
  "truthy PyNone = False"
| "truthy PyFalse = False"
| "truthy (PyDict d) = (d \<noteq> [])"

definition py_dict :: "(string \<times> real) list \<Rightarrow> joint_angles" where
  "py_dict kvs = foldl (\<lambda>d kv. AList.update (fst kv) (snd kv) d) [] kvs"

record pnp =
  limb_name :: string
  hover_distance :: real
  verbose :: bool
  init_state :: bool

text \<open>A method run: from the trace so far to an exception or a value, and the new trace.\<close>

type_synonym 'a run = "trace \<Rightarrow> (exn + 'a) \<times> trace"

definition bind_run :: "'a run \<Rightarrow> ('a \<Rightarrow> 'b run) \<Rightarrow> 'b run" where
  "bind_run m k tr =
     (case m tr of (Inl e, tr') \<Rightarrow> (Inl e, tr') | (Inr v, tr') \<Rightarrow> k v tr')"

definition service_failed_msg :: "string \<Rightarrow> string" where
  "service_failed_msg e = ''Service call failed: '' @ e"

definition invalid_pose_msg :: string where
  "invalid_pose_msg = ''INVALID POSE - No Valid Joint Solution Found.''"

definition no_joint_angles_msg :: string where
  "no_joint_angles_msg = ''No Joint Angles provided for move_to_joint_positions. Staying put.''"

subsection \<open>The methods of \<^verbatim>\<open>PickAndPlace\<close>\<close>

definition ik_request :: "world \<Rightarrow> pnp \<Rightarrow> pose \<Rightarrow> pyval run" where
  "ik_request W self p tr =
     (case iksvc W tr p of
        RaiseServiceException e \<Rightarrow>
          (Inr PyFalse, tr @ [IkService p, LogErr (service_failed_msg e)])
      | RaiseROSException e \<Rightarrow>
          (Inr PyFalse, tr @ [IkService p, LogErr (service_failed_msg e)])
      | Response rt js \<Rightarrow>
          (case rt of
             [] \<Rightarrow> (Inl IndexError, tr @ [IkService p])
           | seed # _ \<Rightarrow>
               if seed \<noteq> RESULT_INVALID then
                 (case js of
                    [] \<Rightarrow> (Inl IndexError, tr @ [IkService p])
                  | j # _ \<Rightarrow>
                      (Inr (PyDict (py_dict (zip (name j) (angle j)))), tr @ [IkService p]))
               else (Inr PyFalse, tr @ [IkService p, LogErr invalid_pose_msg])))"

fun the_dict :: "pyval \<Rightarrow> joint_angles" where
  "the_dict (PyDict d) = d"
| "the_dict v = []"

definition guarded_move_to_joint_position :: "pyval \<Rightarrow> unit run" where
  "guarded_move_to_joint_position joint_angles tr =
     (if truthy joint_angles then (Inr (), tr @ [MoveToJointPositions (the_dict joint_angles)])
      else (Inr (), tr @ [LogErr no_joint_angles_msg]))"

definition gripper_open :: "unit run" where
  "gripper_open tr = (Inr (), tr @ [GripperOpen, Sleep 1])"

definition gripper_close :: "unit run" where
  "gripper_close tr = (Inr (), tr @ [GripperClose, Sleep 1])"

definition approach :: "world \<Rightarrow> pnp \<Rightarrow> pose \<Rightarrow> unit run" where
  "approach W self p =
     bind_run (ik_request W self (hover (hover_distance self) p))
       guarded_move_to_joint_position"

definition goTo :: "world \<Rightarrow> pnp \<Rightarrow> pose \<Rightarrow> unit run" where
  "goTo W self p =
     bind_run (ik_request W self (hover (hover_distance self) p))
       guarded_move_to_joint_position"

definition retract :: "world \<Rightarrow> pnp \<Rightarrow> unit run" where
  "retract W self tr =
     (let current_pose = endpoint_pose W tr;
          ik_pose = Pose (Point (px (position current_pose)) (py (position current_pose))
                            (pz (position current_pose) + hover_distance self))
                      (Quaternion (qx (orientation current_pose)) (qy (orientation current_pose))
                         (qz (orientation current_pose)) (qw (orientation current_pose)))
      in bind_run (ik_request W self ik_pose) guarded_move_to_joint_position
           (tr @ [EndpointPose]))"

definition servo_to_pose :: "world \<Rightarrow> pnp \<Rightarrow> pose \<Rightarrow> unit run" where
  "servo_to_pose W self p =
     bind_run (ik_request W self p) guarded_move_to_joint_position"

text \<open>The loop \<^verbatim>\<open>for p_ in posePath: self.goTo(p_)\<close> of \<^verbatim>\<open>pick\<close>.\<close>

fun go_path :: "world \<Rightarrow> pnp \<Rightarrow> pose list \<Rightarrow> unit run" where
  "go_path W self [] tr = (Inr (), tr)"
| "go_path W self (p # ps) tr =
     (case goTo W self p tr of
        (Inl e, tr') \<Rightarrow> (Inl e, tr')
      | (Inr _, tr') \<Rightarrow> go_path W self ps tr')"

definition pick :: "world \<Rightarrow> pnp \<Rightarrow> pose \<Rightarrow> pose list \<Rightarrow> unit run" where
  "pick W self p posePath =
     bind_run gripper_open (\<lambda>_.
     bind_run (approach W self p) (\<lambda>_.
     bind_run (servo_to_pose W self p) (\<lambda>_.
     bind_run gripper_close (\<lambda>_.
     bind_run (retract W self) (\<lambda>_.
     go_path W self posePath)))))"

definition place :: "world \<Rightarrow> pnp \<Rightarrow> pose \<Rightarrow> unit run" where
  "place W self p =
     bind_run (approach W self p) (\<lambda>_.
     bind_run (servo_to_pose W self p) (\<lambda>_.
     bind_run gripper_open (\<lambda>_.
     retract W self)))"

subsection \<open>\<^verbatim>\<open>move_to_start\<close> and the attributes of the object\<close>

text \<open>
  \<^verbatim>\<open>move_to_start\<close> reads \<^verbatim>\<open>self._joint_names\<close> when it is given no start angles.
  Python looks an attribute up in the dictionary of the instance, which \<^verbatim>\<open>__init__\<close>
  fills, and then in the class, which holds the methods; a name found in neither raises
  \<^verbatim>\<open>AttributeError\<close> (the base class \<^verbatim>\<open>object\<close> has no attribute of that name either).
\<close>

datatype attr = AStr string | AReal real | ABool bool | AObject string | AMethod

definition instance_dict :: "pnp \<Rightarrow> (string \<times> attr) list" where
  "instance_dict self =
     [(''_limb_name'', AStr (limb_name self)),
      (''_hover_distance'', AReal (hover_distance self)),
      (''_verbose'', ABool (verbose self)),
      (''_limb'', AObject ''Limb''),
      (''_gripper'', AObject ''Gripper''),
      (''_iksvc'', AObject ''ServiceProxy''),
      (''_rs'', AObject ''RobotEnable''),
      (''_init_state'', ABool (init_state self))]"

definition class_dict :: "(string \<times> attr) list" where
  "class_dict =
     map (\<lambda>n. (n, AMethod))
       [''__init__'', ''move_to_start'', ''ik_request'', ''_guarded_move_to_joint_position'',
        ''gripper_open'', ''gripper_close'', ''_approach'', ''goTo'', ''_retract'',
        ''_servo_to_pose'', ''pick'', ''place'']"

definition getattr :: "pnp \<Rightarrow> string \<Rightarrow> exn + attr" where
  "getattr self n =
     (case map_of (instance_dict self @ class_dict) n of
        None \<Rightarrow> Inl (AttributeError n)
      | Some v \<Rightarrow> Inr v)"

text \<open>
  \<^verbatim>\<open>zip(a, [0]*7)\<close> iterates over \<open>a\<close>: a string yields its characters, the other
  attribute values of this object are not iterable.
\<close>

fun iter_attr :: "attr \<Rightarrow> exn + string list" where
  "iter_attr (AStr s) = Inr (map (\<lambda>c. [c]) s)"
| "iter_attr a = Inl TypeError"

definition move_to_start :: "pnp \<Rightarrow> pyval \<Rightarrow> unit run" where
  "move_to_start self start_angles tr =
     (let rest = (\<lambda>angles.
            bind_run (guarded_move_to_joint_position angles) (\<lambda>_.
            bind_run gripper_open (\<lambda>_ tr'. (Inr (), tr' @ [Sleep 1]))))
      in if \<not> truthy start_angles then
           (case getattr self ''_joint_names'' of
              Inl e \<Rightarrow> (Inl e, tr)
            | Inr a \<Rightarrow>
                (case iter_attr a of
                   Inl e \<Rightarrow> (Inl e, tr)
                 | Inr names \<Rightarrow> rest (PyDict (py_dict (zip names (replicate 7 0)))) tr))
         else rest start_angles tr)"

subsection \<open>The home poses of a block\<close>

text \<open>
  \<^verbatim>\<open>main\<close> keeps, for each block, a list of home poses and an index into it. It reads
  the pose at the index (\<^verbatim>\<open>block1_poses[idx1]\<close>, the target of the pick) and then advances
  the index (\<^verbatim>\<open>idx1 = (idx1+1) % len(block1_poses)\<close>) before it reads the target of the
  place. \<open>nextHome\<close> is that read followed by that advance. A subscript out of range
  raises \<^verbatim>\<open>IndexError\<close> (a negative one counts from the end), a zero modulus
  \<^verbatim>\<open>ZeroDivisionError\<close>.
\<close>

definition py_getitem :: "'a list \<Rightarrow> int \<Rightarrow> exn + 'a" where
  "py_getitem xs i =
     (let n = int (length xs); j = (if i < 0 then i + n else i)
      in if 0 \<le> j \<and> j < n then Inr (xs ! nat j) else Inl IndexError)"

definition py_mod :: "int \<Rightarrow> int \<Rightarrow> exn + int" where
  "py_mod a b = (if b = 0 then Inl ZeroDivisionError else Inr (a mod b))"

definition nextHome :: "pose list \<Rightarrow> int \<Rightarrow> exn + (pose \<times> int)" where
  "nextHome poses idx =
     (case py_getitem poses idx of
        Inl e \<Rightarrow> Inl e
      | Inr p \<Rightarrow>
          (case py_mod (idx + 1) (int (length poses)) of
             Inl e \<Rightarrow> Inl e
           | Inr idx' \<Rightarrow> Inr (p, idx')))"

text \<open>
  The targets of one round of \<^verbatim>\<open>main\<close> for a block, without the motions between the
  reads: the target of the pick, the advance of the index, the target of the place.
\<close>

definition block_targets :: "pose list \<Rightarrow> int \<Rightarrow> exn + (pose \<times> pose \<times> int)" where
  "block_targets poses idx =
     (case py_getitem poses idx of
        Inl e \<Rightarrow> Inl e
      | Inr pick_pose \<Rightarrow>
          (case py_mod (idx + 1) (int (length poses)) of
             Inl e \<Rightarrow> Inl e
           | Inr idx' \<Rightarrow>
               (case py_getitem poses idx' of
                  Inl e \<Rightarrow> Inl e
                | Inr place_pose \<Rightarrow> Inr (pick_pose, place_pose, idx'))))"

text \<open>\<open>k\<close> calls in a row: the poses they return, in order, and the index they leave.\<close>

fun homes :: "nat \<Rightarrow> pose list \<Rightarrow> int \<Rightarrow> exn + (pose list \<times> int)" where
  "homes 0 poses idx = Inr ([], idx)"
| "homes (Suc k) poses idx =
     (case nextHome poses idx of
        Inl e \<Rightarrow> Inl e
      | Inr (p, idx') \<Rightarrow>
          (case homes k poses idx' of
             Inl e \<Rightarrow> Inl e
           | Inr (ps, idx'') \<Rightarrow> Inr (p # ps, idx'')))"

section \<open>A concrete run\<close>

text \<open>
  The values of \<^verbatim>\<open>main\<close>: the left limb with a hover distance of 0.15, the overhead
  orientation, the first home pose of block 1, the pose it is placed at and two waypoints. The worlds
  are test doubles: the service answers \<open>ok\<close> except for the poses of \<open>bad\<close>, where it
  answers \<open>ko\<close>, and the limb always reports the same endpoint pose.
\<close>

definition left_pnp :: pnp where
  "left_pnp = \<lparr>limb_name = ''left'', hover_distance = 0.15, verbose = True, init_state = True\<rparr>"

definition overhead_orientation :: quaternion where
  "overhead_orientation =
     Quaternion (-0.0249590815779) 0.999649402929 0.00737916180073 0.00486450832011"

definition block1_pick :: pose where
  "block1_pick = Pose (Point 0.7 0.15 (-0.129)) overhead_orientation"

definition block1_place :: pose where
  "block1_place = Pose (Point 0.7 0.64 (-0.129)) overhead_orientation"

definition waypoint_a :: pose where
  "waypoint_a = Pose (Point 0.7 0.3 0.1) overhead_orientation"

definition waypoint_b :: pose where
  "waypoint_b = Pose (Point 0.7 0.5 0.1) overhead_orientation"

definition reply_invalid :: ik_reply where
  "reply_invalid = Response [0] []"

definition reply_down :: ik_reply where
  "reply_down = RaiseServiceException ''unavailable''"

definition reply_current_seed :: ik_reply where
  "reply_current_seed = Response [2] [JointState [''left_w0'', ''left_w1''] [0.67, 1.03]]"

definition double_world :: "ik_reply \<Rightarrow> pose list \<Rightarrow> ik_reply \<Rightarrow> pose \<Rightarrow> world" where
  "double_world ko bad ok cur =
     \<lparr>iksvc = (\<lambda>tr p. if p \<in> set bad then ko else ok), endpoint_pose = (\<lambda>tr. cur)\<rparr>"

section \<open>Observations on replies and traces\<close>

text \<open>
  A solve fails when the service call raises or the first result type is
  \<^verbatim>\<open>RESULT_INVALID\<close>; then \<^verbatim>\<open>ik_request\<close> logs \<open>failure_msg\<close>. A response is
  malformed when \<^verbatim>\<open>ik_request\<close> subscripts an empty sequence on it. Otherwise the
  response carries a solution, the dictionary \<open>solution\<close>.
\<close>

definition solve_fails :: "ik_reply \<Rightarrow> bool" where
  "solve_fails r =
     (case r of
        RaiseServiceException e \<Rightarrow> True
      | RaiseROSException e \<Rightarrow> True
      | Response rt js \<Rightarrow> (case rt of [] \<Rightarrow> False | seed # _ \<Rightarrow> seed = RESULT_INVALID))"

definition failure_msg :: "ik_reply \<Rightarrow> string" where
  "failure_msg r =
     (case r of
        RaiseServiceException e \<Rightarrow> service_failed_msg e
      | RaiseROSException e \<Rightarrow> service_failed_msg e
      | Response rt js \<Rightarrow> invalid_pose_msg)"

definition malformed :: "ik_reply \<Rightarrow> bool" where
  "malformed r =
     (case r of
        Response rt js \<Rightarrow>
          (case rt of [] \<Rightarrow> True | seed # _ \<Rightarrow> seed \<noteq> RESULT_INVALID \<and> js = [])
      | _ \<Rightarrow> False)"

definition solution :: "ik_reply \<Rightarrow> joint_angles" where
  "solution r =
     (case r of
        Response rt js \<Rightarrow>
          (case js of [] \<Rightarrow> [] | j # _ \<Rightarrow> py_dict (zip (name j) (angle j)))
      | _ \<Rightarrow> [])"

definition solved :: "ik_reply \<Rightarrow> bool" where
  "solved r = (\<not> solve_fails r \<and> \<not> malformed r \<and> solution r \<noteq> [])"

definition well_formed :: "world \<Rightarrow> bool" where
  "well_formed W = (\<forall>tr p. \<not> malformed (iksvc W tr p))"

definition always_solved :: "world \<Rightarrow> bool" where
  "always_solved W = (\<forall>tr p. solved (iksvc W tr p))"

text \<open>The poses sent to the service and the motion commands sent to the limb, in order.\<close>

fun solves :: "trace \<Rightarrow> pose list" where
  "solves [] = []"
| "solves (IkService p # evs) = p # solves evs"
| "solves (ev # evs) = solves evs"

fun moves :: "trace \<Rightarrow> joint_angles list" where
  "moves [] = []"
| "moves (MoveToJointPositions j # evs) = j # moves evs"
| "moves (ev # evs) = moves evs"

text \<open>
  The trace the spec asks of a phase, after its call of the service: a failed solve is
  logged (by \<^verbatim>\<open>ik_request\<close> and by the guarded move) and moves nothing, a solution
  is sent to the limb in one motion command, and an empty solution is refused with a log
  entry. \<open>path_events\<close> is the trace the spec asks of the traversal: every waypoint in
  order gets its phase on the hovered pose, whatever the phases before it did. Both are
  stated from the spec, to be compared with what the methods do.
\<close>

definition phase_events :: "ik_reply \<Rightarrow> trace" where
  "phase_events r =
     (if solve_fails r then [LogErr (failure_msg r), LogErr no_joint_angles_msg]
      else if solution r \<noteq> [] then [MoveToJointPositions (solution r)]
      else [LogErr no_joint_angles_msg])"

fun path_events :: "world \<Rightarrow> real \<Rightarrow> pose list \<Rightarrow> trace \<Rightarrow> trace" where
  "path_events W d [] tr = tr"
| "path_events W d (q # qs) tr =
     path_events W d qs (tr @ IkService (hover d q) # phase_events (iksvc W tr (hover d q)))"

section \<open>Hovering above a pose\<close>

lemma deref_append: "deref h a = Some v \<Longrightarrow> deref (h @ xs) a = Some v"
  by (simp add: deref_def nth_append split: if_splits)

lemma read_point_append: "read_point h a = Some v \<Longrightarrow> read_point (h @ xs) a = Some v"
  unfolding read_point_def
  by (cases "deref h a") (auto simp: deref_append split: obj.splits)

lemma read_quaternion_append:
  "read_quaternion h a = Some v \<Longrightarrow> read_quaternion (h @ xs) a = Some v"
  unfolding read_quaternion_def
  by (cases "deref h a") (auto simp: deref_append split: obj.splits)

lemma read_pose_append:
  "read_pose h a = Some p \<Longrightarrow> read_pose (h @ xs) a = Some p"
  unfolding read_pose_def
  by (cases "deref h a")
     (auto simp: deref_append read_point_append read_quaternion_append
           split: obj.splits option.splits)

lemma deepcopy_result:
  assumes "read_pose h a = Some p"
  shows "deepcopy h a =
     Some (Suc (Suc (length h)),
           h @ [PointObj (px (position p)) (py (position p)) (pz (position p)),
                QuaternionObj (qx (orientation p)) (qy (orientation p))
                              (qz (orientation p)) (qw (orientation p)),
                PoseObj (length h) (Suc (length h))])"
  using assms by (simp add: deepcopy_def alloc_def)

lemma add_position_z_copy:
  "add_position_z (h @ [PointObj x y z, q, PoseObj (length h) (Suc (length h))]) (Suc (Suc (length h))) d
     = Some (h @ [PointObj x y (z + d), q, PoseObj (length h) (Suc (length h))])"
  by (simp add: add_position_z_def deref_def nth_append list_update_append)

lemma hover_store_result:
  assumes "read_pose h a = Some p"
  shows "hover_store h a d =
     Some (Suc (Suc (length h)),
           h @ [PointObj (px (position p)) (py (position p)) (pz (position p) + d),
                QuaternionObj (qx (orientation p)) (qy (orientation p))
                              (qz (orientation p)) (qw (orientation p)),
                PoseObj (length h) (Suc (length h))])"
  by (simp add: hover_store_def deepcopy_result [OF assms] add_position_z_copy)

lemma read_pose_copy:
  "read_pose (h @ [PointObj x y z, QuaternionObj a b c e, PoseObj (length h) (Suc (length h))])
      (Suc (Suc (length h))) = Some (Pose (Point x y z) (Quaternion a b c e))"
  by (simp add: read_pose_def read_point_def read_quaternion_def deref_def nth_append)

lemma hover_zero: "hover 0 p = p"
  by (cases p; cases "position p") (simp add: hover_def)

text \<open>
  Claim C6. For every pose \<open>p\<close> and every distance \<open>d\<close> (so also for \<open>d \<ge> 0\<close>), the
  hovered pose has \<open>z = p.z + d\<close> and the \<open>x\<close>, \<open>y\<close> and orientation of \<open>p\<close>; a zero
  distance gives \<open>p\<close> back. On the store, the two lines that compute it return a new
  pose object that reads as the hovered pose, and every object that existed before,
  the caller's pose among them, is unchanged.
\<close>

theorem hover_adds_to_z_and_copies:
  assumes "read_pose h a = Some p"
  shows "pz (position (hover d p)) = pz (position p) + d
       \<and> px (position (hover d p)) = px (position p)
       \<and> py (position (hover d p)) = py (position p)
       \<and> orientation (hover d p) = orientation p
       \<and> hover 0 p = p
       \<and> (\<exists>a' h'. hover_store h a d = Some (a', h')
             \<and> read_pose h' a' = Some (hover d p)
             \<and> take (length h) h' = h
             \<and> read_pose h' a = Some p)"
proof -
  let ?h' = "h @ [PointObj (px (position p)) (py (position p)) (pz (position p) + d),
                QuaternionObj (qx (orientation p)) (qy (orientation p))
                              (qz (orientation p)) (qw (orientation p)),
                PoseObj (length h) (Suc (length h))]"
  have 1: "hover_store h a d = Some (Suc (Suc (length h)), ?h')"
    by (rule hover_store_result [OF assms])
  have 2: "read_pose ?h' (Suc (Suc (length h))) = Some (hover d p)"
    by (cases p; cases "orientation p") (simp add: read_pose_copy hover_def)
  have 3: "read_pose ?h' a = Some p"
    by (rule read_pose_append [OF assms])
  have 4: "take (length h) ?h' = h" by simp
  have store: "\<exists>a' h'. hover_store h a d = Some (a', h')
             \<and> read_pose h' a' = Some (hover d p)
             \<and> take (length h) h' = h
             \<and> read_pose h' a = Some p"
    using 1 2 3 4 by blast
  have fields: "pz (position (hover d p)) = pz (position p) + d
       \<and> px (position (hover d p)) = px (position p)
       \<and> py (position (hover d p)) = py (position p)
       \<and> orientation (hover d p) = orientation p"
    by (simp add: hover_def)
  show ?thesis using store fields hover_zero by blast
qed

theorem hover_adds_to_z_and_copies_witness:
  "read_pose [PointObj (7/10) (3/20) (-129/1000), QuaternionObj 0 1 0 0, PoseObj 0 1] 2
     = Some (Pose (Point (7/10) (3/20) (-129/1000)) (Quaternion 0 1 0 0))
   \<and> pz (position (hover (3/20) (Pose (Point (7/10) (3/20) (-129/1000)) (Quaternion 0 1 0 0))))
       = 21/1000
   \<and> (\<exists>a' h'. hover_store [PointObj (7/10) (3/20) (-129/1000), QuaternionObj 0 1 0 0, PoseObj 0 1]
                  2 (3/20) = Some (a', h')
         \<and> read_pose h' a'
            = Some (Pose (Point (7/10) (3/20) (21/1000)) (Quaternion 0 1 0 0))
         \<and> read_pose h' 2 = Some (Pose (Point (7/10) (3/20) (-129/1000)) (Quaternion 0 1 0 0)))"
proof -
  have h: "read_pose [PointObj (7/10) (3/20) (-129/1000), QuaternionObj 0 1 0 0, PoseObj 0 1] 2
     = Some (Pose (Point (7/10) (3/20) (-129/1000)) (Quaternion 0 1 0 0))"
    by (simp add: read_pose_def read_point_def read_quaternion_def deref_def)
  have v: "hover (3/20) (Pose (Point (7/10) (3/20) (-129/1000)) (Quaternion 0 1 0 0))
       = Pose (Point (7/10) (3/20) (21/1000)) (Quaternion 0 1 0 0)"
    by (simp add: hover_def)
  from hover_adds_to_z_and_copies [OF h, of "3/20"] h show ?thesis
    unfolding v by auto
qed

section \<open>One solve, then at most one move\<close>

text \<open>
  \<^verbatim>\<open>_approach\<close>, \<^verbatim>\<open>_servo_to_pose\<close>, \<^verbatim>\<open>_retract\<close> and \<^verbatim>\<open>goTo\<close> all end with the
  same two calls: \<^verbatim>\<open>ik_request\<close> on a pose, then \<^verbatim>\<open>_guarded_move_to_joint_position\<close>
  on what it returned. The lemmas below give the trace of such a phase for each kind of
  reply.
\<close>

lemma solves_append: "solves (xs @ ys) = solves xs @ solves ys"
  by (induction xs rule: solves.induct) simp_all

lemma moves_append: "moves (xs @ ys) = moves xs @ moves ys"
  by (induction xs rule: moves.induct) simp_all

lemma ik_request_fails:
  "solve_fails (iksvc W tr p) \<Longrightarrow>
   ik_request W self p tr =
     (Inr PyFalse, tr @ [IkService p, LogErr (failure_msg (iksvc W tr p))])"
  by (auto simp: ik_request_def solve_fails_def failure_msg_def
      split: ik_reply.splits list.splits)

lemma ik_request_malformed:
  "malformed (iksvc W tr p) \<Longrightarrow> ik_request W self p tr = (Inl IndexError, tr @ [IkService p])"
  by (auto simp: ik_request_def malformed_def split: ik_reply.splits list.splits)

lemma ik_request_solution:
  "\<not> solve_fails (iksvc W tr p) \<Longrightarrow> \<not> malformed (iksvc W tr p) \<Longrightarrow>
   ik_request W self p tr = (Inr (PyDict (solution (iksvc W tr p))), tr @ [IkService p])"
  by (auto simp: ik_request_def malformed_def solve_fails_def solution_def
      split: ik_reply.splits list.splits)

lemma servo_fails:
  "solve_fails (iksvc W tr p) \<Longrightarrow>
   servo_to_pose W self p tr =
     (Inr (), tr @ [IkService p, LogErr (failure_msg (iksvc W tr p)), LogErr no_joint_angles_msg])"
  by (simp add: servo_to_pose_def bind_run_def ik_request_fails
      guarded_move_to_joint_position_def)

lemma servo_malformed:
  "malformed (iksvc W tr p) \<Longrightarrow> servo_to_pose W self p tr = (Inl IndexError, tr @ [IkService p])"
  by (simp add: servo_to_pose_def bind_run_def ik_request_malformed)

lemma servo_solved:
  "solved (iksvc W tr p) \<Longrightarrow>
   servo_to_pose W self p tr =
     (Inr (), tr @ [IkService p, MoveToJointPositions (solution (iksvc W tr p))])"
  by (simp add: servo_to_pose_def bind_run_def ik_request_solution solved_def
      guarded_move_to_joint_position_def)

lemma servo_empty:
  "\<not> solve_fails (iksvc W tr p) \<Longrightarrow> \<not> malformed (iksvc W tr p) \<Longrightarrow>
   solution (iksvc W tr p) = [] \<Longrightarrow>
   servo_to_pose W self p tr = (Inr (), tr @ [IkService p, LogErr no_joint_angles_msg])"
  by (simp add: servo_to_pose_def bind_run_def ik_request_solution
      guarded_move_to_joint_position_def)

lemma fails_not_solved: "solve_fails r \<Longrightarrow> \<not> solved r"
  by (simp add: solved_def)

lemma fails_not_malformed: "solve_fails r \<Longrightarrow> \<not> malformed r"
  by (auto simp: solve_fails_def malformed_def split: ik_reply.splits list.splits)

lemma servo_shape:
  "\<exists>evs. snd (servo_to_pose W self p tr) = tr @ IkService p # evs
         \<and> solves evs = []
         \<and> moves evs = (if solved (iksvc W tr p) then [solution (iksvc W tr p)] else [])
         \<and> (fst (servo_to_pose W self p tr) =
              (if malformed (iksvc W tr p) then Inl IndexError else Inr ()))"
proof -
  let ?r = "iksvc W tr p"
  consider (f) "solve_fails ?r" | (m) "malformed ?r"
    | (s) "solved ?r" | (e) "\<not> solve_fails ?r" "\<not> malformed ?r" "solution ?r = []"
    by (auto simp: solved_def)
  then show ?thesis
  proof cases
    case f
    then show ?thesis
      by (simp add: servo_fails fails_not_solved fails_not_malformed)
  next
    case m
    then show ?thesis by (simp add: servo_malformed solved_def)
  next
    case s
    then show ?thesis by (simp add: servo_solved) (simp add: solved_def)
  next
    case e
    then show ?thesis by (simp add: servo_empty solved_def)
  qed
qed

lemma approach_servo:
  "approach W self p = servo_to_pose W self (hover (hover_distance self) p)"
  by (simp add: approach_def servo_to_pose_def)

lemma goTo_servo:
  "goTo W self p = servo_to_pose W self (hover (hover_distance self) p)"
  by (simp add: goTo_def servo_to_pose_def)

lemma retract_servo:
  "retract W self tr =
     servo_to_pose W self (hover (hover_distance self) (endpoint_pose W tr)) (tr @ [EndpointPose])"
  by (simp add: retract_def servo_to_pose_def hover_def Let_def)

subsection \<open>Facts about the concrete run\<close>

lemmas fixture_defs = left_pnp_def block1_pick_def block1_place_def waypoint_a_def
  waypoint_b_def reply_invalid_def reply_down_def reply_current_seed_def double_world_def

lemmas reply_defs = solve_fails_def malformed_def solution_def solved_def failure_msg_def
  RESULT_INVALID_def py_dict_def

lemmas run_defs = pick_def place_def approach_def servo_to_pose_def retract_def goTo_def
  gripper_open_def gripper_close_def bind_run_def ik_request_def
  guarded_move_to_joint_position_def hover_def

lemma reply_facts:
  "solve_fails reply_invalid" "solve_fails reply_down" "\<not> solve_fails reply_current_seed"
  "\<not> malformed reply_invalid" "\<not> malformed reply_down" "\<not> malformed reply_current_seed"
  "solved reply_current_seed" "\<not> solved reply_invalid" "\<not> solved reply_down"
  "solution reply_current_seed = [(''left_w0'', 0.67), (''left_w1'', 1.03)]"
  "failure_msg reply_invalid = invalid_pose_msg"
  "failure_msg reply_down = service_failed_msg ''unavailable''"
  by (simp_all add: reply_defs reply_invalid_def reply_down_def reply_current_seed_def)

lemma double_world_wf:
  "\<not> malformed ko \<Longrightarrow> \<not> malformed ok \<Longrightarrow> well_formed (double_world ko bad ok cur)"
  by (simp add: well_formed_def double_world_def)

lemma double_world_sel:
  "iksvc (double_world ko bad ok cur) tr p = (if p \<in> set bad then ko else ok)"
  "endpoint_pose (double_world ko bad ok cur) tr = cur"
  by (simp_all add: double_world_def)

lemmas pose_values = hover_def left_pnp_def block1_pick_def block1_place_def
  waypoint_a_def waypoint_b_def

text \<open>
  Claim C4. In each of the phases Approach (\<^verbatim>\<open>_approach\<close>), Descend
  (\<^verbatim>\<open>_servo_to_pose\<close>) and Retract (\<^verbatim>\<open>_retract\<close>) the service is called exactly once,
  and every later event of the phase comes after that call. At most one motion command
  follows: exactly one, carrying the joint solution of that very solve, when the solve
  returned a non-empty solution, and none otherwise. In particular a failed solve is
  followed by no motion command in its phase.
\<close>

theorem one_solve_then_at_most_one_move:
  "(\<exists>evs. snd (approach W self p tr) = tr @ IkService (hover (hover_distance self) p) # evs
        \<and> solves evs = []
        \<and> moves evs =
            (if solved (iksvc W tr (hover (hover_distance self) p))
             then [solution (iksvc W tr (hover (hover_distance self) p))] else [])
        \<and> (solve_fails (iksvc W tr (hover (hover_distance self) p)) \<longrightarrow> moves evs = []))
   \<and> (\<exists>evs. snd (servo_to_pose W self p tr) = tr @ IkService p # evs
        \<and> solves evs = []
        \<and> moves evs = (if solved (iksvc W tr p) then [solution (iksvc W tr p)] else [])
        \<and> (solve_fails (iksvc W tr p) \<longrightarrow> moves evs = []))
   \<and> (\<exists>evs. snd (retract W self tr) =
          tr @ EndpointPose # IkService (hover (hover_distance self) (endpoint_pose W tr)) # evs
        \<and> solves evs = []
        \<and> moves evs =
            (if solved (iksvc W (tr @ [EndpointPose])
                          (hover (hover_distance self) (endpoint_pose W tr)))
             then [solution (iksvc W (tr @ [EndpointPose])
                               (hover (hover_distance self) (endpoint_pose W tr)))]
             else [])
        \<and> (solve_fails (iksvc W (tr @ [EndpointPose])
                           (hover (hover_distance self) (endpoint_pose W tr)))
             \<longrightarrow> moves evs = []))"
proof -
  have phase: "\<exists>evs. snd (servo_to_pose W self q t) = t @ IkService q # evs
        \<and> solves evs = []
        \<and> moves evs = (if solved (iksvc W t q) then [solution (iksvc W t q)] else [])
        \<and> (solve_fails (iksvc W t q) \<longrightarrow> moves evs = [])" for q t
    using servo_shape [of W self q t] by (auto simp: fails_not_solved)
  have a: "\<exists>evs. snd (approach W self p tr) = tr @ IkService (hover (hover_distance self) p) # evs
        \<and> solves evs = []
        \<and> moves evs =
            (if solved (iksvc W tr (hover (hover_distance self) p))
             then [solution (iksvc W tr (hover (hover_distance self) p))] else [])
        \<and> (solve_fails (iksvc W tr (hover (hover_distance self) p)) \<longrightarrow> moves evs = [])"
    unfolding approach_servo by (rule phase)
  have r: "\<exists>evs. snd (retract W self tr) =
          tr @ EndpointPose # IkService (hover (hover_distance self) (endpoint_pose W tr)) # evs
        \<and> solves evs = []
        \<and> moves evs =
            (if solved (iksvc W (tr @ [EndpointPose])
                          (hover (hover_distance self) (endpoint_pose W tr)))
             then [solution (iksvc W (tr @ [EndpointPose])
                               (hover (hover_distance self) (endpoint_pose W tr)))]
             else [])
        \<and> (solve_fails (iksvc W (tr @ [EndpointPose])
                           (hover (hover_distance self) (endpoint_pose W tr)))
             \<longrightarrow> moves evs = [])"
    using phase [of "hover (hover_distance self) (endpoint_pose W tr)" "tr @ [EndpointPose]"]
    unfolding retract_servo by simp
  from a phase [of p tr] r show ?thesis by blast
qed

theorem one_solve_then_at_most_one_move_witness:
  "solve_fails (iksvc (double_world reply_invalid [hover (hover_distance left_pnp) block1_pick]
                         reply_current_seed block1_place)
                  [] (hover (hover_distance left_pnp) block1_pick))
   \<and> approach (double_world reply_invalid [hover (hover_distance left_pnp) block1_pick]
                 reply_current_seed block1_place) left_pnp block1_pick []
       = (Inr (), [IkService (hover (hover_distance left_pnp) block1_pick),
                   LogErr invalid_pose_msg, LogErr no_joint_angles_msg])
   \<and> (\<exists>evs. snd (approach (double_world reply_invalid
                                [hover (hover_distance left_pnp) block1_pick]
                                reply_current_seed block1_place) left_pnp block1_pick [])
               = IkService (hover (hover_distance left_pnp) block1_pick) # evs
            \<and> solves evs = [] \<and> moves evs = [])
   \<and> (\<exists>evs. snd (servo_to_pose (double_world reply_invalid
                                     [hover (hover_distance left_pnp) block1_pick]
                                     reply_current_seed block1_place) left_pnp block1_pick [])
               = IkService block1_pick # evs
            \<and> solves evs = [] \<and> moves evs = [[(''left_w0'', 0.67), (''left_w1'', 1.03)]])"
proof -
  let ?W = "double_world reply_invalid [hover (hover_distance left_pnp) block1_pick]
              reply_current_seed block1_place"
  have f: "solve_fails (iksvc ?W [] (hover (hover_distance left_pnp) block1_pick))"
    by (simp add: double_world_sel reply_facts)
  have fm: "failure_msg (iksvc ?W [] (hover (hover_distance left_pnp) block1_pick))
      = invalid_pose_msg"
    by (simp add: double_world_sel reply_facts)
  have s: "iksvc ?W [] block1_pick = reply_current_seed"
    by (simp add: double_world_sel pose_values)
  have a: "approach ?W left_pnp block1_pick []
       = (Inr (), [IkService (hover (hover_distance left_pnp) block1_pick),
                   LogErr invalid_pose_msg, LogErr no_joint_angles_msg])"
    using servo_fails [OF f, of left_pnp]
    by (simp add: approach_servo fm)
  from one_solve_then_at_most_one_move [of ?W left_pnp block1_pick "[]"] f a
  show ?thesis
    by (simp add: s reply_facts fails_not_solved)
qed

text \<open>
  Claim C3, as amended. A failure of the service call itself (either exception that
  \<^verbatim>\<open>ik_request\<close> catches) and the solver's report of no valid solution make \<^verbatim>\<open>ik_request\<close>
  return the same value, \<^verbatim>\<open>False\<close>. The two are told apart only by the message that is
  logged: \<^verbatim>\<open>Service call failed: ...\<close> for the first, \<^verbatim>\<open>INVALID POSE - ...\<close> for the
  second, and these two messages are never equal.
\<close>

theorem failed_solve_returns_false:
  "(solve_fails (iksvc W tr p) \<longrightarrow>
      ik_request W self p tr =
        (Inr PyFalse, tr @ [IkService p, LogErr (failure_msg (iksvc W tr p))]))
   \<and> failure_msg (RaiseServiceException e) = service_failed_msg e
   \<and> failure_msg (RaiseROSException e) = service_failed_msg e
   \<and> failure_msg (Response rt js) = invalid_pose_msg
   \<and> service_failed_msg e \<noteq> invalid_pose_msg"
  by (simp add: ik_request_fails failure_msg_def service_failed_msg_def invalid_pose_msg_def)

theorem failed_solve_returns_false_witness:
  "solve_fails (iksvc (double_world reply_down [block1_pick] reply_current_seed block1_place)
                  [] block1_pick)
   \<and> ik_request (double_world reply_down [block1_pick] reply_current_seed block1_place)
        left_pnp block1_pick []
       = (Inr PyFalse, [IkService block1_pick, LogErr (service_failed_msg ''unavailable'')])"
proof -
  have f: "solve_fails (iksvc (double_world reply_down [block1_pick] reply_current_seed
                                 block1_place) [] block1_pick)"
    by (simp add: double_world_def reply_down_def solve_fails_def)
  from failed_solve_returns_false
    [of "double_world reply_down [block1_pick] reply_current_seed block1_place" "[]"
        block1_pick left_pnp] f
  show ?thesis
    by (simp add: double_world_def reply_down_def failure_msg_def)
qed

text \<open>
  Claim C3 as stated fails: a service that raises and a service that reports an invalid
  result give \<^verbatim>\<open>ik_request\<close> the same result value.
\<close>

theorem service_error_is_conflated_counterexample:
  "iksvc (double_world reply_down [block1_pick] reply_current_seed block1_place) [] block1_pick
     = RaiseServiceException ''unavailable''
   \<and> iksvc (double_world reply_invalid [block1_pick] reply_current_seed block1_place) []
        block1_pick
     = Response [RESULT_INVALID] []
   \<and> fst (ik_request (double_world reply_down [block1_pick] reply_current_seed block1_place)
             left_pnp block1_pick []) = Inr PyFalse
   \<and> fst (ik_request (double_world reply_invalid [block1_pick] reply_current_seed block1_place)
             left_pnp block1_pick []) = Inr PyFalse"
  by (simp add: double_world_def reply_down_def reply_invalid_def ik_request_def
      RESULT_INVALID_def)

text \<open>
  Claim C8. A call of \<^verbatim>\<open>_guarded_move_to_joint_position\<close> with an empty joint
  configuration sends no motion command to the limb, logs the message
  \<^verbatim>\<open>No Joint Angles provided ...\<close> (through \<^verbatim>\<open>rospy.logerr\<close>), and returns normally:
  whatever comes next in the sequence runs, on the trace extended by that one log entry.
\<close>

theorem empty_joint_move_is_refused:
  "guarded_move_to_joint_position (PyDict []) tr = (Inr (), tr @ [LogErr no_joint_angles_msg])
   \<and> moves (snd (guarded_move_to_joint_position (PyDict []) tr)) = moves tr
   \<and> (\<forall>k. bind_run (guarded_move_to_joint_position (PyDict [])) k tr
            = k () (tr @ [LogErr no_joint_angles_msg]))"
  by (simp add: guarded_move_to_joint_position_def bind_run_def moves_append)

theorem empty_joint_move_is_refused_witness:
  "guarded_move_to_joint_position (PyDict []) [GripperOpen, Sleep 1]
     = (Inr (), [GripperOpen, Sleep 1, LogErr no_joint_angles_msg])
   \<and> bind_run (guarded_move_to_joint_position (PyDict [])) (\<lambda>_. gripper_close)
        [GripperOpen, Sleep 1]
     = (Inr (), [GripperOpen, Sleep 1, LogErr no_joint_angles_msg, GripperClose, Sleep 1])"
proof -
  note r = empty_joint_move_is_refused [of "[GripperOpen, Sleep 1]"]
  from r have g: "guarded_move_to_joint_position (PyDict []) [GripperOpen, Sleep 1]
     = (Inr (), [GripperOpen, Sleep 1] @ [LogErr no_joint_angles_msg])"
    by blast
  from r have k: "bind_run (guarded_move_to_joint_position (PyDict [])) (\<lambda>_. gripper_close)
        [GripperOpen, Sleep 1] = gripper_close ([GripperOpen, Sleep 1] @ [LogErr no_joint_angles_msg])"
    by blast
  show ?thesis unfolding g k by (simp add: gripper_close_def)
qed

section \<open>Pick and place\<close>

text \<open>
  \<^verbatim>\<open>pick\<close> and \<^verbatim>\<open>place\<close> raise only when a response of the service is malformed.
  For a world whose responses are well formed they are the chains of their phases.
\<close>

lemma bind_run_Inr: "fst (m tr) = Inr v \<Longrightarrow> bind_run m k tr = k v (snd (m tr))"
  by (cases "m tr") (simp add: bind_run_def)

lemma servo_wf:
  assumes "well_formed W"
  shows "\<exists>evs. servo_to_pose W self p tr = (Inr (), tr @ IkService p # evs)
         \<and> solves evs = []
         \<and> moves evs = (if solved (iksvc W tr p) then [solution (iksvc W tr p)] else [])"
proof -
  from assms have "\<not> malformed (iksvc W tr p)" by (simp add: well_formed_def)
  with servo_shape [of W self p tr] show ?thesis
    by (cases "servo_to_pose W self p tr") auto
qed

lemma servo_wf_fst: "well_formed W \<Longrightarrow> fst (servo_to_pose W self p tr) = Inr ()"
  using servo_wf [of W self p tr] by auto

lemma retract_wf_fst: "well_formed W \<Longrightarrow> fst (retract W self tr) = Inr ()"
  by (simp add: retract_servo servo_wf_fst)

lemma go_path_shape:
  assumes "well_formed W"
  shows "\<exists>evs. go_path W self ps tr = (Inr (), tr @ evs)
           \<and> solves evs = map (hover (hover_distance self)) ps"
proof (induction ps arbitrary: tr)
  case Nil
  show ?case by simp
next
  case (Cons q ps)
  from servo_wf [OF assms, of self "hover (hover_distance self) q" tr]
  obtain e1 where e1: "goTo W self q tr = (Inr (), tr @ IkService (hover (hover_distance self) q) # e1)"
    and s1: "solves e1 = []"
    unfolding goTo_servo by blast
  from Cons.IH [of "tr @ IkService (hover (hover_distance self) q) # e1"]
  obtain e2 where e2: "go_path W self ps (tr @ IkService (hover (hover_distance self) q) # e1)
        = (Inr (), (tr @ IkService (hover (hover_distance self) q) # e1) @ e2)"
    and s2: "solves e2 = map (hover (hover_distance self)) ps"
    by blast
  have "go_path W self (q # ps) tr
          = (Inr (), tr @ (IkService (hover (hover_distance self) q) # e1 @ e2))"
    using e1 e2 by simp
  moreover have "solves (IkService (hover (hover_distance self) q) # e1 @ e2)
          = map (hover (hover_distance self)) (q # ps)"
    using s1 s2 by (simp add: solves_append)
  ultimately show ?case by blast
qed

lemma pick_chain:
  assumes "well_formed W"
  shows "pick W self p posePath tr =
     go_path W self posePath
       (snd (retract W self
          (snd (servo_to_pose W self p
             (snd (approach W self p (tr @ [GripperOpen, Sleep 1])))) @ [GripperClose, Sleep 1])))"
proof -
  have a: "fst (approach W self p t) = Inr ()" for t
    by (simp add: approach_servo servo_wf_fst [OF assms])
  have s: "fst (servo_to_pose W self p t) = Inr ()" for t
    by (rule servo_wf_fst [OF assms])
  have r: "fst (retract W self t) = Inr ()" for t
    by (rule retract_wf_fst [OF assms])
  have go: "fst (gripper_open t) = Inr ()" "snd (gripper_open t) = t @ [GripperOpen, Sleep 1]"
    and gc: "fst (gripper_close t) = Inr ()" "snd (gripper_close t) = t @ [GripperClose, Sleep 1]"
    for t
    by (simp_all add: gripper_open_def gripper_close_def)
  show ?thesis
    unfolding pick_def
    by (simp add: bind_run_Inr [OF go(1)] go(2) bind_run_Inr [OF a] bind_run_Inr [OF s]
        bind_run_Inr [OF gc(1)] gc(2) bind_run_Inr [OF r])
qed

lemma place_chain:
  assumes "well_formed W"
  shows "place W self p tr =
     retract W self
       (snd (servo_to_pose W self p (snd (approach W self p tr))) @ [GripperOpen, Sleep 1])"
proof -
  have a: "fst (approach W self p t) = Inr ()" for t
    by (simp add: approach_servo servo_wf_fst [OF assms])
  have s: "fst (servo_to_pose W self p t) = Inr ()" for t
    by (rule servo_wf_fst [OF assms])
  have go: "fst (gripper_open t) = Inr ()" "snd (gripper_open t) = t @ [GripperOpen, Sleep 1]"
    for t
    by (simp_all add: gripper_open_def)
  show ?thesis
    unfolding place_def
    by (simp add: bind_run_Inr [OF a] bind_run_Inr [OF s] bind_run_Inr [OF go(1)] go(2))
qed

lemma always_solved_wf: "always_solved W \<Longrightarrow> well_formed W"
  by (simp add: always_solved_def well_formed_def solved_def)

subsection \<open>The traces the spec asks for\<close>

lemma solves_phase_events: "solves (phase_events r) = []"
  by (simp add: phase_events_def)

lemma moves_phase_events:
  "\<not> malformed r \<Longrightarrow> moves (phase_events r) = (if solved r then [solution r] else [])"
  by (simp add: phase_events_def solved_def)

lemma servo_exact:
  assumes "\<not> malformed (iksvc W tr p)"
  shows "servo_to_pose W self p tr = (Inr (), tr @ IkService p # phase_events (iksvc W tr p))"
proof -
  let ?r = "iksvc W tr p"
  consider (f) "solve_fails ?r" | (s) "solved ?r"
    | (e) "\<not> solve_fails ?r" "solution ?r = []"
    using assms by (auto simp: solved_def)
  then show ?thesis
  proof cases
    case f
    then show ?thesis by (simp add: servo_fails phase_events_def)
  next
    case s
    then show ?thesis by (simp add: servo_solved phase_events_def solved_def)
  next
    case e
    with assms show ?thesis by (simp add: servo_empty phase_events_def)
  qed
qed

lemma servo_exact_wf:
  "well_formed W \<Longrightarrow>
   servo_to_pose W self p tr = (Inr (), tr @ IkService p # phase_events (iksvc W tr p))"
  by (rule servo_exact) (simp add: well_formed_def)

lemma go_path_exact:
  assumes "well_formed W"
  shows "go_path W self ps tr = (Inr (), path_events W (hover_distance self) ps tr)"
  by (induction ps arbitrary: tr) (simp_all add: goTo_servo servo_exact_wf [OF assms])

lemma path_events_shape:
  "\<exists>evs. path_events W d ps tr = tr @ evs \<and> solves evs = map (hover d) ps"
proof (induction ps arbitrary: tr)
  case Nil
  show ?case by simp
next
  case (Cons q ps)
  let ?e = "IkService (hover d q) # phase_events (iksvc W tr (hover d q))"
  from Cons [of "tr @ ?e"]
  obtain evs where e: "path_events W d ps (tr @ ?e) = (tr @ ?e) @ evs"
    and s: "solves evs = map (hover d) ps"
    by blast
  have "path_events W d (q # ps) tr = tr @ (?e @ evs)" using e by simp
  moreover have "solves (?e @ evs) = map (hover d) (q # ps)"
    using s by (simp add: solves_append solves_phase_events)
  ultimately show ?case by blast
qed

lemma place_exact:
  assumes wf: "well_formed W"
  shows "place W self p tr =
     (Inr (),
      tr @ IkService (hover (hover_distance self) p)
         # phase_events (iksvc W tr (hover (hover_distance self) p))
         @ IkService p
         # phase_events
             (iksvc W (tr @ IkService (hover (hover_distance self) p)
                          # phase_events (iksvc W tr (hover (hover_distance self) p))) p)
         @ [GripperOpen, Sleep 1, EndpointPose]
         @ IkService (hover (hover_distance self)
             (endpoint_pose W
                (tr @ IkService (hover (hover_distance self) p)
                   # phase_events (iksvc W tr (hover (hover_distance self) p))
                   @ IkService p
                   # phase_events
                       (iksvc W (tr @ IkService (hover (hover_distance self) p)
                          # phase_events (iksvc W tr (hover (hover_distance self) p))) p)
                   @ [GripperOpen, Sleep 1])))
         # phase_events
             (iksvc W
                (tr @ IkService (hover (hover_distance self) p)
                   # phase_events (iksvc W tr (hover (hover_distance self) p))
                   @ IkService p
                   # phase_events
                       (iksvc W (tr @ IkService (hover (hover_distance self) p)
                          # phase_events (iksvc W tr (hover (hover_distance self) p))) p)
                   @ [GripperOpen, Sleep 1, EndpointPose])
                (hover (hover_distance self)
                   (endpoint_pose W
                      (tr @ IkService (hover (hover_distance self) p)
                         # phase_events (iksvc W tr (hover (hover_distance self) p))
                         @ IkService p
                         # phase_events
                             (iksvc W (tr @ IkService (hover (hover_distance self) p)
                                # phase_events (iksvc W tr (hover (hover_distance self) p))) p)
                         @ [GripperOpen, Sleep 1])))))"
  unfolding place_chain [OF wf]
  by (simp add: approach_servo retract_servo servo_exact_wf [OF wf])

text \<open>
  Claim C1, as amended. During \<^verbatim>\<open>pick\<close>, when the solve of the Approach phase fails (the
  solver reports an invalid result, or the service call raises), the failure is logged and
  no motion command is issued for the Approach phase; the pick is not aborted and there
  is no failed state. The Descend solve on the target pose is the next call and, the
  responses of the service being well formed, the gripper is closed afterwards and
  \<^verbatim>\<open>pick\<close> returns normally.
\<close>

theorem pick_goes_on_after_failed_approach:
  assumes wf: "well_formed W"
    and fails: "solve_fails (iksvc W (tr @ [GripperOpen, Sleep 1]) (hover (hover_distance self) p))"
  shows "\<exists>mid rest. pick W self p posePath tr =
           (Inr (),
            tr @ [GripperOpen, Sleep 1, IkService (hover (hover_distance self) p),
                  LogErr (failure_msg (iksvc W (tr @ [GripperOpen, Sleep 1])
                                         (hover (hover_distance self) p))),
                  LogErr no_joint_angles_msg,
                  IkService p]
               @ mid @ [GripperClose, Sleep 1] @ rest)"
proof -
  let ?a = "hover (hover_distance self) p"
  let ?t1 = "tr @ [GripperOpen, Sleep 1]"
  let ?t2 = "?t1 @ [IkService ?a, LogErr (failure_msg (iksvc W ?t1 ?a)), LogErr no_joint_angles_msg]"
  have a: "snd (approach W self p ?t1) = ?t2"
    unfolding approach_servo by (simp add: servo_fails [OF fails])
  from servo_wf [OF wf, of self p ?t2]
  obtain mid where d: "servo_to_pose W self p ?t2 = (Inr (), ?t2 @ IkService p # mid)"
    by blast
  let ?t4 = "(?t2 @ IkService p # mid) @ [GripperClose, Sleep 1]"
  from servo_wf [OF wf, of self "hover (hover_distance self) (endpoint_pose W ?t4)"
      "?t4 @ [EndpointPose]"]
  obtain e3 where r: "retract W self ?t4 =
      (Inr (), (?t4 @ [EndpointPose])
          @ IkService (hover (hover_distance self) (endpoint_pose W ?t4)) # e3)"
    unfolding retract_servo by blast
  let ?t5 = "(?t4 @ [EndpointPose])
          @ IkService (hover (hover_distance self) (endpoint_pose W ?t4)) # e3"
  from go_path_shape [OF wf, of self posePath ?t5]
  obtain e4 where g: "go_path W self posePath ?t5 = (Inr (), ?t5 @ e4)"
    by blast
  have "pick W self p posePath tr = (Inr (), ?t5 @ e4)"
    unfolding pick_chain [OF wf] a by (simp only: d snd_conv r g)
  then have "pick W self p posePath tr =
           (Inr (),
            tr @ [GripperOpen, Sleep 1, IkService ?a,
                  LogErr (failure_msg (iksvc W ?t1 ?a)),
                  LogErr no_joint_angles_msg,
                  IkService p]
               @ mid @ [GripperClose, Sleep 1]
               @ (EndpointPose
                    # IkService (hover (hover_distance self) (endpoint_pose W ?t4)) # e3 @ e4))"
    by simp
  then show ?thesis by blast
qed

theorem pick_goes_on_after_failed_approach_witness:
  "well_formed (double_world reply_invalid [hover (hover_distance left_pnp) block1_pick]
                  reply_current_seed block1_place)
   \<and> solve_fails (iksvc (double_world reply_invalid [hover (hover_distance left_pnp) block1_pick]
                           reply_current_seed block1_place)
                    ([] @ [GripperOpen, Sleep 1]) (hover (hover_distance left_pnp) block1_pick))
   \<and> (\<exists>mid rest.
         pick (double_world reply_invalid [hover (hover_distance left_pnp) block1_pick]
                 reply_current_seed block1_place) left_pnp block1_pick [] []
           = (Inr (),
              [GripperOpen, Sleep 1, IkService (hover (hover_distance left_pnp) block1_pick),
               LogErr invalid_pose_msg, LogErr no_joint_angles_msg, IkService block1_pick]
              @ mid @ [GripperClose, Sleep 1] @ rest))"
proof -
  let ?W = "double_world reply_invalid [hover (hover_distance left_pnp) block1_pick]
              reply_current_seed block1_place"
  have wf: "well_formed ?W"
    by (simp add: double_world_wf reply_facts)
  have f: "solve_fails (iksvc ?W ([] @ [GripperOpen, Sleep 1])
                          (hover (hover_distance left_pnp) block1_pick))"
    by (simp add: double_world_sel reply_facts)
  have fm: "failure_msg (iksvc ?W ([] @ [GripperOpen, Sleep 1])
                           (hover (hover_distance left_pnp) block1_pick)) = invalid_pose_msg"
    by (simp add: double_world_sel reply_facts)
  from pick_goes_on_after_failed_approach [OF wf f, of "[]"] wf f
  show ?thesis unfolding fm by simp
qed

text \<open>
  Claim C1 as stated fails: in this run the Approach solve fails, and yet the Descend solve
  is attempted, the limb is moved twice afterwards and the gripper is closed.
\<close>

theorem pick_aborts_after_failed_approach_counterexample:
  "solve_fails (iksvc (double_world reply_invalid [hover (hover_distance left_pnp) block1_pick]
                         reply_current_seed block1_place)
                  [GripperOpen, Sleep 1] (hover (hover_distance left_pnp) block1_pick))
   \<and> pick (double_world reply_invalid [hover (hover_distance left_pnp) block1_pick]
             reply_current_seed block1_place) left_pnp block1_pick [] []
       = (Inr (),
          [GripperOpen, Sleep 1,
           IkService (hover (hover_distance left_pnp) block1_pick),
           LogErr invalid_pose_msg, LogErr no_joint_angles_msg,
           IkService block1_pick,
           MoveToJointPositions [(''left_w0'', 0.67), (''left_w1'', 1.03)],
           GripperClose, Sleep 1,
           EndpointPose,
           IkService (hover (hover_distance left_pnp) block1_place),
           MoveToJointPositions [(''left_w0'', 0.67), (''left_w1'', 1.03)]])"
  by (simp add: double_world_def reply_invalid_def reply_current_seed_def solve_fails_def
      pose_values run_defs RESULT_INVALID_def py_dict_def)

text \<open>
  Claim C2, as amended. During \<^verbatim>\<open>place\<close>, the responses of the service being well
  formed, a failed solve in the Approach phase or in the Descend phase is logged and no
  motion command is issued for that phase; the place is not aborted and there is no failed
  state. The trace of \<^verbatim>\<open>place\<close> is exactly: the Approach phase on the hovered target,
  the Descend phase on the target, the opening of the gripper (and its settling delay),
  the reading of the endpoint pose and the Retract phase on the hovered endpoint pose, each
  phase being its solve followed by \<open>phase_events\<close> of the reply; \<^verbatim>\<open>place\<close> returns
  normally. So the gripper is opened after the Descend phase whatever the two solves
  returned, and the retract follows.
\<close>

theorem place_releases_after_failed_solve:
  assumes wf: "well_formed W"
  shows "let d = hover_distance self;
             ra = iksvc W tr (hover d p);
             t1 = tr @ IkService (hover d p) # phase_events ra;
             rd = iksvc W t1 p;
             t2 = t1 @ IkService p # phase_events rd;
             t3 = t2 @ [GripperOpen, Sleep 1];
             c = hover d (endpoint_pose W t3);
             t4 = t3 @ [EndpointPose];
             rr = iksvc W t4 c
         in place W self p tr = (Inr (), t4 @ IkService c # phase_events rr)
          \<and> (solve_fails ra \<longrightarrow>
                phase_events ra = [LogErr (failure_msg ra), LogErr no_joint_angles_msg])
          \<and> (solve_fails rd \<longrightarrow>
                phase_events rd = [LogErr (failure_msg rd), LogErr no_joint_angles_msg])
          \<and> moves (phase_events ra) = (if solved ra then [solution ra] else [])
          \<and> moves (phase_events rd) = (if solved rd then [solution rd] else [])
          \<and> moves (phase_events rr) = (if solved rr then [solution rr] else [])"
proof -
  have nm: "\<not> malformed (iksvc W t q)" for t q
    using wf by (simp add: well_formed_def)
  have f: "solve_fails r \<longrightarrow> phase_events r = [LogErr (failure_msg r), LogErr no_joint_angles_msg]"
    for r
    by (simp add: phase_events_def)
  show ?thesis
    unfolding Let_def
    using place_exact [OF wf, of self p tr]
    by (simp add: moves_phase_events [OF nm] f)
qed

theorem place_releases_after_failed_solve_witness:
  "well_formed (double_world reply_invalid [hover (hover_distance left_pnp) block1_place]
                  reply_current_seed block1_pick)
   \<and> solve_fails (iksvc (double_world reply_invalid [hover (hover_distance left_pnp) block1_place]
                           reply_current_seed block1_pick)
                    [] (hover (hover_distance left_pnp) block1_place))
   \<and> place (double_world reply_invalid [hover (hover_distance left_pnp) block1_place]
              reply_current_seed block1_pick)
        left_pnp block1_place []
       = (Inr (),
          [IkService (hover (hover_distance left_pnp) block1_place),
           LogErr invalid_pose_msg, LogErr no_joint_angles_msg,
           IkService block1_place,
           MoveToJointPositions [(''left_w0'', 0.67), (''left_w1'', 1.03)],
           GripperOpen, Sleep 1,
           EndpointPose,
           IkService (hover (hover_distance left_pnp) block1_pick),
           MoveToJointPositions [(''left_w0'', 0.67), (''left_w1'', 1.03)]])"
proof -
  let ?W = "double_world reply_invalid [hover (hover_distance left_pnp) block1_place]
              reply_current_seed block1_pick"
  have wf: "well_formed ?W"
    by (simp add: double_world_wf reply_facts)
  have pe: "phase_events reply_invalid = [LogErr invalid_pose_msg, LogErr no_joint_angles_msg]"
    "phase_events reply_current_seed
              = [MoveToJointPositions [(''left_w0'', 0.67), (''left_w1'', 1.03)]]"
    by (simp_all add: phase_events_def reply_facts)
  have s: "solve_fails (iksvc ?W [] (hover (hover_distance left_pnp) block1_place))"
    by (simp add: double_world_sel reply_facts)
  from place_releases_after_failed_solve [OF wf, of left_pnp "[]" block1_place]
  have "place ?W left_pnp block1_place []
       = (Inr (),
          [IkService (hover (hover_distance left_pnp) block1_place),
           LogErr invalid_pose_msg, LogErr no_joint_angles_msg,
           IkService block1_place,
           MoveToJointPositions [(''left_w0'', 0.67), (''left_w1'', 1.03)],
           GripperOpen, Sleep 1,
           EndpointPose,
           IkService (hover (hover_distance left_pnp) block1_pick),
           MoveToJointPositions [(''left_w0'', 0.67), (''left_w1'', 1.03)]])"
    by (simp add: Let_def double_world_sel pose_values pe)
  with wf s show ?thesis by blast
qed

text \<open>
  Claim C2 as stated fails: in this run the Descend solve fails because the service is
  unavailable, and the gripper is opened right after.
\<close>

theorem place_aborts_after_failed_solve_counterexample:
  "solve_fails (iksvc (double_world reply_down [block1_place] reply_current_seed block1_pick)
                  [IkService (hover (hover_distance left_pnp) block1_place),
                   MoveToJointPositions [(''left_w0'', 0.67), (''left_w1'', 1.03)]]
                  block1_place)
   \<and> place (double_world reply_down [block1_place] reply_current_seed block1_pick)
        left_pnp block1_place []
       = (Inr (),
          [IkService (hover (hover_distance left_pnp) block1_place),
           MoveToJointPositions [(''left_w0'', 0.67), (''left_w1'', 1.03)],
           IkService block1_place,
           LogErr (service_failed_msg ''unavailable''), LogErr no_joint_angles_msg,
           GripperOpen, Sleep 1,
           EndpointPose,
           IkService (hover (hover_distance left_pnp) block1_pick),
           MoveToJointPositions [(''left_w0'', 0.67), (''left_w1'', 1.03)]])"
  by (simp add: double_world_def reply_down_def reply_current_seed_def solve_fails_def
      pose_values run_defs RESULT_INVALID_def py_dict_def)

text \<open>
  Claim C5. In the traversal of the waypoints a failed solve is logged (twice: by
  \<^verbatim>\<open>ik_request\<close> and by the guarded move), moves nothing and lets \<^verbatim>\<open>goTo\<close> return
  normally; the loop then goes on with the remaining waypoints as it would have without
  the failure. In particular a waypoint that is solved right after a failed one is moved
  to. The trace of the loop is exactly \<open>path_events\<close>: every waypoint in order, each
  with its solve on the hovered pose and the events of its reply, a motion command for
  every solution. The trace of the whole \<^verbatim>\<open>pick\<close> is that of its own three phases and
  gripper calls followed by that traversal, and \<^verbatim>\<open>pick\<close> returns normally, there being
  no failed state to end in. The responses of the service are taken to be well formed.
\<close>

theorem waypoint_failure_does_not_stop_pick:
  assumes wf: "well_formed W"
  shows "(solve_fails (iksvc W t (hover (hover_distance self) q)) \<longrightarrow>
            goTo W self q t =
              (Inr (), t @ [IkService (hover (hover_distance self) q),
                            LogErr (failure_msg (iksvc W t (hover (hover_distance self) q))),
                            LogErr no_joint_angles_msg]))
       \<and> goTo W self q t =
           (Inr (), t @ IkService (hover (hover_distance self) q)
                        # phase_events (iksvc W t (hover (hover_distance self) q)))
       \<and> go_path W self (q # qs) t =
           go_path W self qs
             (t @ IkService (hover (hover_distance self) q)
                # phase_events (iksvc W t (hover (hover_distance self) q)))
       \<and> (let t1 = t @ [IkService (hover (hover_distance self) q),
                         LogErr (failure_msg (iksvc W t (hover (hover_distance self) q))),
                         LogErr no_joint_angles_msg]
          in solve_fails (iksvc W t (hover (hover_distance self) q))
               \<and> solved (iksvc W t1 (hover (hover_distance self) q'))
             \<longrightarrow> go_path W self [q, q'] t =
                   (Inr (), t1 @ [IkService (hover (hover_distance self) q'),
                                  MoveToJointPositions
                                    (solution (iksvc W t1 (hover (hover_distance self) q')))]))
       \<and> go_path W self posePath t = (Inr (), path_events W (hover_distance self) posePath t)
       \<and> (\<exists>evs. go_path W self posePath t = (Inr (), t @ evs)
              \<and> solves evs = map (hover (hover_distance self)) posePath)
       \<and> (let d = hover_distance self;
               t1 = tr @ [GripperOpen, Sleep 1];
               t2 = t1 @ IkService (hover d p) # phase_events (iksvc W t1 (hover d p));
               t3 = t2 @ IkService p # phase_events (iksvc W t2 p);
               t4 = t3 @ [GripperClose, Sleep 1];
               c = hover d (endpoint_pose W t4);
               t5 = t4 @ [EndpointPose];
               t6 = t5 @ IkService c # phase_events (iksvc W t5 c)
           in pick W self p posePath tr = (Inr (), path_events W d posePath t6))
       \<and> (\<exists>evs c. pick W self p posePath tr = (Inr (), tr @ evs)
              \<and> solves evs = [hover (hover_distance self) p, p, hover (hover_distance self) c]
                                @ map (hover (hover_distance self)) posePath)"
proof -
  let ?d = "hover_distance self"
  have one: "solve_fails (iksvc W t (hover ?d q)) \<longrightarrow>
            goTo W self q t =
              (Inr (), t @ [IkService (hover ?d q),
                            LogErr (failure_msg (iksvc W t (hover ?d q))),
                            LogErr no_joint_angles_msg])"
    unfolding goTo_servo by (simp add: servo_fails)
  have two: "goTo W self q t =
           (Inr (), t @ IkService (hover ?d q) # phase_events (iksvc W t (hover ?d q)))"
    unfolding goTo_servo by (rule servo_exact_wf [OF wf])
  have three: "go_path W self (q # qs) t =
           go_path W self qs (t @ IkService (hover ?d q) # phase_events (iksvc W t (hover ?d q)))"
    by (simp add: two)
  have four: "let t1 = t @ [IkService (hover ?d q),
                         LogErr (failure_msg (iksvc W t (hover ?d q))),
                         LogErr no_joint_angles_msg]
          in solve_fails (iksvc W t (hover ?d q)) \<and> solved (iksvc W t1 (hover ?d q'))
             \<longrightarrow> go_path W self [q, q'] t =
                   (Inr (), t1 @ [IkService (hover ?d q'),
                                  MoveToJointPositions (solution (iksvc W t1 (hover ?d q')))])"
    unfolding Let_def
    by (simp add: goTo_servo servo_fails servo_solved)
  have five: "go_path W self posePath t = (Inr (), path_events W ?d posePath t)"
    by (rule go_path_exact [OF wf])
  have six: "\<exists>evs. go_path W self posePath t = (Inr (), t @ evs)
              \<and> solves evs = map (hover ?d) posePath"
    using path_events_shape [of W ?d posePath t] unfolding five by auto
  let ?t1 = "tr @ [GripperOpen, Sleep 1]"
  let ?t2 = "?t1 @ IkService (hover ?d p) # phase_events (iksvc W ?t1 (hover ?d p))"
  let ?t3 = "?t2 @ IkService p # phase_events (iksvc W ?t2 p)"
  let ?t4 = "?t3 @ [GripperClose, Sleep 1]"
  let ?c = "hover ?d (endpoint_pose W ?t4)"
  let ?t5 = "?t4 @ [EndpointPose]"
  let ?t6 = "?t5 @ IkService ?c # phase_events (iksvc W ?t5 ?c)"
  have a: "snd (approach W self p ?t1) = ?t2"
    unfolding approach_servo by (simp add: servo_exact_wf [OF wf])
  have s: "snd (servo_to_pose W self p ?t2) = ?t3"
    by (simp add: servo_exact_wf [OF wf])
  have r: "snd (retract W self ?t4) = ?t6"
    unfolding retract_servo by (simp add: servo_exact_wf [OF wf])
  have pk: "pick W self p posePath tr = (Inr (), path_events W ?d posePath ?t6)"
    unfolding pick_chain [OF wf] a s r by (rule go_path_exact [OF wf])
  then have seven: "let d = hover_distance self;
               t1 = tr @ [GripperOpen, Sleep 1];
               t2 = t1 @ IkService (hover d p) # phase_events (iksvc W t1 (hover d p));
               t3 = t2 @ IkService p # phase_events (iksvc W t2 p);
               t4 = t3 @ [GripperClose, Sleep 1];
               c = hover d (endpoint_pose W t4);
               t5 = t4 @ [EndpointPose];
               t6 = t5 @ IkService c # phase_events (iksvc W t5 c)
           in pick W self p posePath tr = (Inr (), path_events W d posePath t6)"
    unfolding Let_def .
  from path_events_shape [of W ?d posePath ?t6]
  obtain e4 where e4: "path_events W ?d posePath ?t6 = ?t6 @ e4"
    and s4: "solves e4 = map (hover ?d) posePath"
    by blast
  let ?evs = "[GripperOpen, Sleep 1] @ IkService (hover ?d p) # phase_events (iksvc W ?t1 (hover ?d p))
      @ IkService p # phase_events (iksvc W ?t2 p) @ [GripperClose, Sleep 1, EndpointPose]
      @ IkService ?c # phase_events (iksvc W ?t5 ?c) @ e4"
  have "pick W self p posePath tr = (Inr (), tr @ ?evs)"
    unfolding pk e4 by simp
  moreover have "solves ?evs = [hover ?d p, p, ?c] @ map (hover ?d) posePath"
    using s4 by (simp add: solves_append solves_phase_events)
  ultimately have eight: "\<exists>evs c. pick W self p posePath tr = (Inr (), tr @ evs)
              \<and> solves evs = [hover ?d p, p, hover ?d c] @ map (hover ?d) posePath"
    by blast
  from one two three four five six seven eight show ?thesis by blast
qed

theorem waypoint_failure_does_not_stop_pick_witness:
  "well_formed (double_world reply_invalid [hover (hover_distance left_pnp) waypoint_a]
                  reply_current_seed block1_place)
   \<and> solve_fails (iksvc (double_world reply_invalid [hover (hover_distance left_pnp) waypoint_a]
                           reply_current_seed block1_place)
                    [] (hover (hover_distance left_pnp) waypoint_a))
   \<and> goTo (double_world reply_invalid [hover (hover_distance left_pnp) waypoint_a]
             reply_current_seed block1_place) left_pnp waypoint_a []
       = (Inr (), [IkService (hover (hover_distance left_pnp) waypoint_a),
                   LogErr invalid_pose_msg, LogErr no_joint_angles_msg])
   \<and> pick (double_world reply_invalid [hover (hover_distance left_pnp) waypoint_a]
             reply_current_seed block1_place)
        left_pnp block1_pick [waypoint_a, waypoint_b] []
       = (Inr (),
          [GripperOpen, Sleep 1,
           IkService (hover (hover_distance left_pnp) block1_pick),
           MoveToJointPositions [(''left_w0'', 0.67), (''left_w1'', 1.03)],
           IkService block1_pick,
           MoveToJointPositions [(''left_w0'', 0.67), (''left_w1'', 1.03)],
           GripperClose, Sleep 1,
           EndpointPose,
           IkService (hover (hover_distance left_pnp) block1_place),
           MoveToJointPositions [(''left_w0'', 0.67), (''left_w1'', 1.03)],
           IkService (hover (hover_distance left_pnp) waypoint_a),
           LogErr invalid_pose_msg, LogErr no_joint_angles_msg,
           IkService (hover (hover_distance left_pnp) waypoint_b),
           MoveToJointPositions [(''left_w0'', 0.67), (''left_w1'', 1.03)]])"
proof -
  let ?W = "double_world reply_invalid [hover (hover_distance left_pnp) waypoint_a]
              reply_current_seed block1_place"
  have wf: "well_formed ?W"
    by (simp add: double_world_wf reply_facts)
  have r: "iksvc ?W t (hover (hover_distance left_pnp) waypoint_a) = reply_invalid" for t
    by (simp add: double_world_sel)
  have s: "solve_fails (iksvc ?W [] (hover (hover_distance left_pnp) waypoint_a))"
    unfolding r by (simp add: reply_facts)
  have pe: "phase_events reply_invalid = [LogErr invalid_pose_msg, LogErr no_joint_angles_msg]"
    "phase_events reply_current_seed
              = [MoveToJointPositions [(''left_w0'', 0.67), (''left_w1'', 1.03)]]"
    by (simp_all add: phase_events_def reply_facts)
  note w = waypoint_failure_does_not_stop_pick
    [OF wf, of "[]" left_pnp waypoint_a "[]" waypoint_b "[waypoint_a, waypoint_b]" "[]" block1_pick]
  from w s have "goTo ?W left_pnp waypoint_a []
       = (Inr (), [] @ [IkService (hover (hover_distance left_pnp) waypoint_a),
                   LogErr (failure_msg (iksvc ?W [] (hover (hover_distance left_pnp) waypoint_a))),
                   LogErr no_joint_angles_msg])"
    by blast
  then have g: "goTo ?W left_pnp waypoint_a []
       = (Inr (), [IkService (hover (hover_distance left_pnp) waypoint_a),
                   LogErr invalid_pose_msg, LogErr no_joint_angles_msg])"
    unfolding r by (simp add: reply_facts)
  from w have "let d = hover_distance left_pnp;
               t1 = [] @ [GripperOpen, Sleep 1];
               t2 = t1 @ IkService (hover d block1_pick)
                      # phase_events (iksvc ?W t1 (hover d block1_pick));
               t3 = t2 @ IkService block1_pick # phase_events (iksvc ?W t2 block1_pick);
               t4 = t3 @ [GripperClose, Sleep 1];
               c = hover d (endpoint_pose ?W t4);
               t5 = t4 @ [EndpointPose];
               t6 = t5 @ IkService c # phase_events (iksvc ?W t5 c)
           in pick ?W left_pnp block1_pick [waypoint_a, waypoint_b] []
                = (Inr (), path_events ?W d [waypoint_a, waypoint_b] t6)"
    by blast
  then have p: "pick ?W left_pnp block1_pick [waypoint_a, waypoint_b] []
       = (Inr (),
          [GripperOpen, Sleep 1,
           IkService (hover (hover_distance left_pnp) block1_pick),
           MoveToJointPositions [(''left_w0'', 0.67), (''left_w1'', 1.03)],
           IkService block1_pick,
           MoveToJointPositions [(''left_w0'', 0.67), (''left_w1'', 1.03)],
           GripperClose, Sleep 1,
           EndpointPose,
           IkService (hover (hover_distance left_pnp) block1_place),
           MoveToJointPositions [(''left_w0'', 0.67), (''left_w1'', 1.03)],
           IkService (hover (hover_distance left_pnp) waypoint_a),
           LogErr invalid_pose_msg, LogErr no_joint_angles_msg,
           IkService (hover (hover_distance left_pnp) waypoint_b),
           MoveToJointPositions [(''left_w0'', 0.67), (''left_w1'', 1.03)]])"
    by (simp add: Let_def double_world_sel pose_values pe)
  from wf s g p show ?thesis by blast
qed

text \<open>
  Claim C7. When every solve succeeds with a non-empty joint solution and the path is
  empty, the calls of \<^verbatim>\<open>pick\<close> are exactly: open the gripper (followed by its settling
  delay of one second), solve the hovered target, move, solve the target, move, close the
  gripper (and its settling delay), read the endpoint pose, solve the hovered endpoint
  pose, move. Every move carries the solution of the solve before it, and \<^verbatim>\<open>pick\<close>
  returns normally.
\<close>

theorem pick_without_waypoints_when_solved:
  assumes ok: "always_solved W"
  shows "let hd = hover_distance self;
             t1 = tr @ [GripperOpen, Sleep 1];
             t2 = t1 @ [IkService (hover hd p),
                        MoveToJointPositions (solution (iksvc W t1 (hover hd p)))];
             t3 = t2 @ [IkService p, MoveToJointPositions (solution (iksvc W t2 p)),
                        GripperClose, Sleep 1];
             c = hover hd (endpoint_pose W t3);
             t4 = t3 @ [EndpointPose]
         in pick W self p [] tr =
              (Inr (), t4 @ [IkService c, MoveToJointPositions (solution (iksvc W t4 c))])"
proof -
  have s: "solved (iksvc W t q)" for t q
    using ok by (simp add: always_solved_def)
  show ?thesis
    unfolding Let_def pick_chain [OF always_solved_wf [OF ok]]
    by (simp add: approach_servo retract_servo servo_solved [OF s])
qed

theorem pick_without_waypoints_when_solved_witness:
  "always_solved (double_world reply_invalid [] reply_current_seed block1_pick)
   \<and> pick (double_world reply_invalid [] reply_current_seed block1_pick)
        left_pnp block1_pick [] []
       = (Inr (),
          [GripperOpen, Sleep 1,
           IkService (hover (hover_distance left_pnp) block1_pick),
           MoveToJointPositions [(''left_w0'', 0.67), (''left_w1'', 1.03)],
           IkService block1_pick,
           MoveToJointPositions [(''left_w0'', 0.67), (''left_w1'', 1.03)],
           GripperClose, Sleep 1,
           EndpointPose,
           IkService (hover (hover_distance left_pnp) block1_pick),
           MoveToJointPositions [(''left_w0'', 0.67), (''left_w1'', 1.03)]])"
proof -
  let ?W = "double_world reply_invalid [] reply_current_seed block1_pick"
  have ok: "always_solved ?W"
    by (simp add: always_solved_def double_world_sel reply_facts)
  have r: "iksvc ?W t q = reply_current_seed" "endpoint_pose ?W t = block1_pick" for t q
    by (simp_all add: double_world_sel)
  from pick_without_waypoints_when_solved [OF ok, of left_pnp "[]" block1_pick] ok
  show ?thesis
    unfolding Let_def r by (simp add: reply_facts)
qed

section \<open>The cycle of home poses\<close>

lemma nextHome_nat:
  assumes "i < length poses"
  shows "nextHome poses (int i) = Inr (poses ! i, int (Suc i mod length poses))"
proof -
  have n: "int (length poses) \<noteq> 0" using assms by auto
  have g: "py_getitem poses (int i) = Inr (poses ! i)"
    using assms by (simp add: py_getitem_def Let_def)
  have m: "py_mod (int i + 1) (int (length poses)) = Inr (int (Suc i mod length poses))"
    using n by (simp add: py_mod_def zmod_int add.commute)
  show ?thesis by (simp add: nextHome_def g m)
qed

lemma homes_nat:
  assumes "poses \<noteq> []"
  shows "i < length poses \<Longrightarrow>
     homes k poses (int i) =
       Inr (map (\<lambda>j. poses ! ((i + j) mod length poses)) [0..<k],
            int ((i + k) mod length poses))"
proof (induction k arbitrary: i)
  case 0
  then show ?case by simp
next
  case (Suc k)
  let ?n = "length poses"
  have lt: "Suc i mod ?n < ?n" using assms by simp
  have step: "(Suc i mod ?n + j) mod ?n = (i + Suc j) mod ?n" for j
    by (simp add: mod_add_left_eq)
  have "map (\<lambda>j. poses ! ((i + j) mod ?n)) [0..<Suc k]
      = poses ! i # map (\<lambda>j. poses ! ((i + Suc j) mod ?n)) [0..<k]"
    using Suc.prems by (simp add: upt_conv_Cons map_Suc_upt [symmetric] o_def del: upt_Suc)
  then show ?case
    using Suc.prems by (simp add: nextHome_nat Suc.IH [OF lt] step del: upt_Suc)
qed

lemma map_mod_rotate:
  assumes "i < length xs"
  shows "map (\<lambda>j. xs ! ((i + j) mod length xs)) [0..<length xs] = rotate i xs"
  by (rule nth_equalityI) (simp_all add: nth_rotate)

lemma block_targets_nextHome:
  "block_targets poses idx =
     (case nextHome poses idx of
        Inl e \<Rightarrow> Inl e
      | Inr (p, i) \<Rightarrow>
          (case py_getitem poses i of Inl e \<Rightarrow> Inl e | Inr q \<Rightarrow> Inr (p, q, i)))"
  by (simp add: block_targets_def nextHome_def split: sum.splits)

text \<open>
  Claim C9. For a list of \<open>n \<ge> 1\<close> home poses and an index in \<open>[0, n)\<close>, \<open>nextHome\<close>
  returns the pose at the index and the index advanced by one modulo \<open>n\<close>, which is again
  in \<open>[0, n)\<close>. \<open>n\<close> calls in a row return the poses in their cyclic order from the
  index on, each position of the list exactly once, and leave the index where it was;
  call \<open>n + 1\<close> returns the pose of the first call again.
\<close>

theorem nextHome_cycles:
  assumes "poses \<noteq> []" and "0 \<le> idx" and "idx < int (length poses)"
  shows "nextHome poses idx = Inr (poses ! nat idx, (idx + 1) mod int (length poses))
       \<and> 0 \<le> (idx + 1) mod int (length poses)
       \<and> (idx + 1) mod int (length poses) < int (length poses)
       \<and> homes (length poses) poses idx = Inr (rotate (nat idx) poses, idx)
       \<and> homes (Suc (length poses)) poses idx =
           Inr (rotate (nat idx) poses @ [poses ! nat idx], (idx + 1) mod int (length poses))
       \<and> block_targets poses idx =
           Inr (poses ! nat idx, poses ! nat ((idx + 1) mod int (length poses)),
                (idx + 1) mod int (length poses))"
proof -
  let ?n = "length poses"
  let ?i = "nat idx"
  have i: "?i < ?n" and idx: "idx = int ?i" using assms by auto
  have n0: "0 < int ?n" using assms by simp
  have m: "int (Suc ?i mod ?n) = (idx + 1) mod int ?n"
    using assms(2) by (simp add: zmod_int add.commute)
  have 1: "nextHome poses idx = Inr (poses ! ?i, (idx + 1) mod int ?n)"
    using nextHome_nat [OF i] idx m by simp
  have 2: "0 \<le> (idx + 1) mod int ?n" "(idx + 1) mod int ?n < int ?n"
    using n0 by simp_all
  have 3: "homes ?n poses idx = Inr (rotate ?i poses, idx)"
    using homes_nat [OF assms(1) i, of ?n] idx i by (simp add: map_mod_rotate)
  have "map (\<lambda>j. poses ! ((?i + j) mod ?n)) [0..<Suc ?n] = rotate ?i poses @ [poses ! ?i]"
    using i by (simp add: map_mod_rotate)
  moreover have "(?i + Suc ?n) mod ?n = Suc ?i mod ?n"
    by (metis add_Suc_right add_Suc mod_add_self2)
  ultimately have 4: "homes (Suc ?n) poses idx =
           Inr (rotate ?i poses @ [poses ! ?i], (idx + 1) mod int ?n)"
    using homes_nat [OF assms(1) i, of "Suc ?n"] idx m by (simp del: upt_Suc homes.simps)
  have 5: "block_targets poses idx =
           Inr (poses ! ?i, poses ! nat ((idx + 1) mod int ?n), (idx + 1) mod int ?n)"
    using 2 by (simp add: block_targets_nextHome 1 py_getitem_def Let_def)
  from 1 2 3 4 5 show ?thesis by blast
qed

theorem nextHome_cycles_witness:
  "nextHome [block1_pick, block1_place] 0 = Inr (block1_pick, 1)
   \<and> nextHome [block1_pick, block1_place] 1 = Inr (block1_place, 0)
   \<and> homes 2 [block1_pick, block1_place] 0 = Inr ([block1_pick, block1_place], 0)
   \<and> homes 3 [block1_pick, block1_place] 0 = Inr ([block1_pick, block1_place, block1_pick], 1)
   \<and> block_targets [block1_pick, block1_place] 0 = Inr (block1_pick, block1_place, 1)"
  using nextHome_cycles [of "[block1_pick, block1_place]" 0]
    nextHome_cycles [of "[block1_pick, block1_place]" 1]
  by (simp add: numeral_2_eq_2 numeral_3_eq_3 del: homes.simps)

section \<open>Starting without start angles\<close>

text \<open>
  Claim C10. No object of the class has an attribute \<^verbatim>\<open>_joint_names\<close>. So
  \<^verbatim>\<open>move_to_start\<close> called with \<^verbatim>\<open>None\<close> or with an empty dictionary raises
  \<^verbatim>\<open>AttributeError\<close> before any call to the limb or the gripper: the trace is unchanged,
  and no motion to an all-zero configuration happens.
\<close>

theorem move_to_start_without_angles_raises:
  "getattr self ''_joint_names'' = Inl (AttributeError ''_joint_names'')
   \<and> move_to_start self PyNone tr = (Inl (AttributeError ''_joint_names''), tr)
   \<and> move_to_start self (PyDict []) tr = (Inl (AttributeError ''_joint_names''), tr)"
proof -
  have g: "getattr self ''_joint_names'' = Inl (AttributeError ''_joint_names'')"
    by (simp add: getattr_def instance_dict_def class_dict_def)
  show ?thesis
    by (simp add: g move_to_start_def Let_def)
qed

theorem move_to_start_without_angles_raises_witness:
  "move_to_start left_pnp PyNone [] = (Inl (AttributeError ''_joint_names''), [])
   \<and> move_to_start left_pnp (PyDict []) [] = (Inl (AttributeError ''_joint_names''), [])
   \<and> move_to_start left_pnp (PyDict [(''left_w0'', 0.67)]) []
       = (Inr (), [MoveToJointPositions [(''left_w0'', 0.67)], GripperOpen, Sleep 1, Sleep 1])"
  using move_to_start_without_angles_raises [of left_pnp "[]"]
  by (simp add: move_to_start_def Let_def bind_run_def guarded_move_to_joint_position_def
      gripper_open_def)

end
